theory Spec2Isabelle
  imports Complex_Main
begin

section \<open>The shared random stream\<close>

text \<open>
  \<^verbatim>\<open>Robot.py\<close> draws all its randomness from Python's process-wide generator through
  \<^verbatim>\<open>random.random()\<close>, which returns a float in the half-open interval from 0 to 1.
  A realization of the generator is the sequence of values it will return, \<open>draws\<close>,
  together with the number of values already handed out, \<open>consumed\<close>. One call returns
  the next value and advances the count.

  A finite Python float is modelled as a real number, with exact arithmetic. The
  record of the robot is polymorphic in the type of its float fields: the methods are
  modelled at type \<open>real\<close>, and \<open>move\<close> a second time at type \<open>pyfloat\<close> below, which
  adds the special values of a float (not-a-number and the two infinities).
\<close>

record rng =
  draws :: "nat \<Rightarrow> real"
  consumed :: nat

definition random_random :: "rng \<Rightarrow> real \<times> rng" where
  "random_random g = (draws g (consumed g), g\<lparr>consumed := Suc (consumed g)\<rparr>)"

text \<open>What the library promises about \<^verbatim>\<open>random.random()\<close>: every value lies in [0, 1).\<close>

definition valid_rng :: "rng \<Rightarrow> bool" where
  "valid_rng g = (\<forall>i. 0 \<le> draws g i \<and> draws g i < 1)"

text \<open>
  The built-in \<^verbatim>\<open>round\<close> of Python 3 with one float argument returns an integer, the
  nearest one, and the even one of the two when the argument lies exactly half way.
\<close>

definition round_half_even :: "real \<Rightarrow> int" where
  "round_half_even v =
     (let f = \<lfloor>v\<rfloor>; d = v - of_int f in
      if d < 1 / 2 then f
      else if d > 1 / 2 then f + 1
      else if even f then f else f + 1)"

section \<open>The robot\<close>

text \<open>
  The fields of class \<^verbatim>\<open>Robot\<close>. Landmarks are pairs of the integers that
  \<^verbatim>\<open>round\<close> returns; \<open>num_landmarks\<close> is the caller's integer, stored as given.
\<close>

record 'a robot =
  world_size :: 'a
  measurement_range :: 'a
  x :: 'a
  y :: 'a
  motion_noise :: 'a
  measurement_noise :: 'a
  landmarks :: "(int \<times> int) list"
  num_landmarks :: int

text \<open>
  The program state a method runs in: the object and the shared generator. Every
  method takes the state and returns its result with the state it leaves behind.
\<close>

type_synonym state = "real robot \<times> rng"

text \<open>\<^verbatim>\<open>__init__(world_size, measurement_range, motion_noise, measurement_noise)\<close>\<close>

definition Robot_init :: "real \<Rightarrow> real \<Rightarrow> real \<Rightarrow> real \<Rightarrow> real robot" where
  "Robot_init ws mr mn msn =
     \<lparr>world_size = ws, measurement_range = mr,
      x = ws / 2, y = ws / 2,
      motion_noise = mn, measurement_noise = msn,
      landmarks = [], num_landmarks = 0\<rparr>"

text \<open>The constructor's default arguments.\<close>

definition Robot_default :: "real robot" where
  "Robot_default = Robot_init 100 30 1 1"

text \<open>
  \<^verbatim>\<open>_rand\<close>: \<^verbatim>\<open>random.random() * 2.0 - 1.0\<close>. It reads no field of the robot, so the
  type of the fields is left open.
\<close>

definition rand :: "'a robot \<times> rng \<Rightarrow> real \<times> 'a robot \<times> rng" where
  "rand s = (let (u, g) = random_random (snd s) in (u * 2 - 1, (fst s, g)))"

text \<open>
  \<^verbatim>\<open>move(dx, dy)\<close>: both candidates are computed, each with its own draw, before the
  boundary test; the fields are assigned only in the accepting branch.
\<close>

definition move :: "real \<Rightarrow> real \<Rightarrow> state \<Rightarrow> bool \<times> state" where
  "move dx dy s =
     (let (n1, s1) = rand s;
          cx = x (fst s1) + dx + n1 * motion_noise (fst s1);
          (n2, s2) = rand s1;
          cy = y (fst s2) + dy + n2 * motion_noise (fst s2)
      in if (cx < 0 \<or> cx > world_size (fst s2)) \<or> (cy < 0 \<or> cy > world_size (fst s2))
         then (False, s2)
         else (True, ((fst s2)\<lparr>x := cx, y := cy\<rparr>, snd s2)))"

text \<open>
  The loop of \<^verbatim>\<open>sense\<close> over \<^verbatim>\<open>enumerate(self.landmarks)\<close>: \<open>idx\<close> is the index of
  the next landmark, \<open>ms\<close> the measurements appended so far. Python reads
  \<^verbatim>\<open>a or b and c\<close> as \<^verbatim>\<open>a or (b and c)\<close>.
\<close>

fun sense_loop ::
  "bool \<Rightarrow> nat \<Rightarrow> (int \<times> int) list \<Rightarrow> (nat \<times> real \<times> real) list \<Rightarrow> state
     \<Rightarrow> (nat \<times> real \<times> real) list \<times> state" where
  "sense_loop all_landmarks_within_range idx [] ms s = (ms, s)"
| "sense_loop all_landmarks_within_range idx ((landmark_x, landmark_y) # rest) ms s =
     (let (n1, s1) = rand s;
          dx = (of_int landmark_x - x (fst s1)) + n1 * measurement_noise (fst s1);
          (n2, s2) = rand s1;
          dy = (of_int landmark_y - y (fst s2)) + n2 * measurement_noise (fst s2);
          is_landmark_within_range =
            (all_landmarks_within_range \<or>
             (\<bar>dx\<bar> \<le> measurement_range (fst s2) \<and> \<bar>dy\<bar> \<le> measurement_range (fst s2)))
      in sense_loop all_landmarks_within_range (Suc idx) rest
           (if is_landmark_within_range then ms @ [(idx, dx, dy)] else ms) s2)"

definition sense :: "state \<Rightarrow> (nat \<times> real \<times> real) list \<times> state" where
  "sense s =
     (let all_landmarks_within_range = (measurement_range (fst s) = - 1)
      in sense_loop all_landmarks_within_range 0 (landmarks (fst s)) [] s)"

text \<open>
  The loop of \<^verbatim>\<open>make_landmarks\<close> over \<^verbatim>\<open>range(num_landmarks)\<close>, counted down: each
  round draws the first coordinate, then the second, and appends the pair.
\<close>

fun make_landmarks_loop :: "nat \<Rightarrow> state \<Rightarrow> state" where
  "make_landmarks_loop 0 s = s"
| "make_landmarks_loop (Suc k) s =
     (let (u1, g1) = random_random (snd s);
          c1 = round_half_even (u1 * world_size (fst s));
          (u2, g2) = random_random g1;
          c2 = round_half_even (u2 * world_size (fst s))
      in make_landmarks_loop k ((fst s)\<lparr>landmarks := landmarks (fst s) @ [(c1, c2)]\<rparr>, g2))"

text \<open>
  \<^verbatim>\<open>make_landmarks(num_landmarks)\<close>: \<^verbatim>\<open>range(n)\<close> is empty for a negative \<open>n\<close>, and
  the argument itself is stored in \<open>num_landmarks\<close>.
\<close>

definition make_landmarks :: "int \<Rightarrow> state \<Rightarrow> state" where
  "make_landmarks n s =
     (let s0 = ((fst s)\<lparr>landmarks := []\<rparr>, snd s);
          s1 = make_landmarks_loop (nat n) s0
      in ((fst s1)\<lparr>num_landmarks := n\<rparr>, snd s1))"

text \<open>
  The states a program can bring a robot into: it constructs one, calls its methods,
  and the shared generator may be used or reseeded by anyone in between.
\<close>

inductive reachable :: "state \<Rightarrow> bool" where
  constructed: "reachable (Robot_init ws mr mn msn, g)"
| moved: "reachable s \<Longrightarrow> reachable (snd (move dx dy s))"
| sensed: "reachable s \<Longrightarrow> reachable (snd (sense s))"
| landmarks_made: "reachable s \<Longrightarrow> reachable (make_landmarks n s)"
| generator_used: "reachable (r, g) \<Longrightarrow> reachable (r, g')"

section \<open>Floats with their special values\<close>

text \<open>
  A Python float is a finite number, one of the two infinities, or not-a-number. The
  operations below are those of \<^verbatim>\<open>+\<close>, \<^verbatim>\<open>*\<close>, \<^verbatim>\<open><\<close> and \<^verbatim>\<open><=\<close> on floats with
  rounding left out: not-a-number is contagious in arithmetic and makes every
  comparison false, opposite infinities add up to not-a-number, and so does zero times
  an infinity.
\<close>

datatype pyfloat = Fin real | PInf | NInf | NaN

fun fl_add :: "pyfloat \<Rightarrow> pyfloat \<Rightarrow> pyfloat" where
  "fl_add NaN b = NaN"
| "fl_add a NaN = NaN"
| "fl_add (Fin a) (Fin b) = Fin (a + b)"
| "fl_add (Fin a) b = b"
| "fl_add a (Fin b) = a"
| "fl_add PInf NInf = NaN"
| "fl_add NInf PInf = NaN"
| "fl_add PInf PInf = PInf"
| "fl_add NInf NInf = NInf"

fun fl_neg :: "pyfloat \<Rightarrow> pyfloat" where
  "fl_neg (Fin a) = Fin (- a)"
| "fl_neg PInf = NInf"
| "fl_neg NInf = PInf"
| "fl_neg NaN = NaN"

fun fl_mul :: "pyfloat \<Rightarrow> pyfloat \<Rightarrow> pyfloat" where
  "fl_mul NaN b = NaN"
| "fl_mul a NaN = NaN"
| "fl_mul (Fin a) (Fin b) = Fin (a * b)"
| "fl_mul (Fin a) b = (if a = 0 then NaN else if 0 < a then b else fl_neg b)"
| "fl_mul a (Fin b) = (if b = 0 then NaN else if 0 < b then a else fl_neg a)"
| "fl_mul PInf b = b"
| "fl_mul NInf b = fl_neg b"

fun fl_lt :: "pyfloat \<Rightarrow> pyfloat \<Rightarrow> bool" where
  "fl_lt NaN b = False"
| "fl_lt a NaN = False"
| "fl_lt (Fin a) (Fin b) = (a < b)"
| "fl_lt a PInf = (a \<noteq> PInf)"
| "fl_lt NInf b = (b \<noteq> NInf)"
| "fl_lt a b = False"


text \<open>A robot whose float fields all hold finite values.\<close>

definition finite_robot :: "real robot \<Rightarrow> pyfloat robot" where
  "finite_robot r =
     \<lparr>world_size = Fin (world_size r), measurement_range = Fin (measurement_range r),
      x = Fin (x r), y = Fin (y r),
      motion_noise = Fin (motion_noise r), measurement_noise = Fin (measurement_noise r),
      landmarks = landmarks r, num_landmarks = num_landmarks r\<rparr>"

text \<open>
  \<^verbatim>\<open>move(dx, dy)\<close> on floats with their special values: the same statements as \<open>move\<close>,
  with the float operations in place of those of the reals. The value of \<^verbatim>\<open>_rand\<close> is
  always finite.
\<close>

definition move_float ::
  "pyfloat \<Rightarrow> pyfloat \<Rightarrow> pyfloat robot \<times> rng \<Rightarrow> bool \<times> pyfloat robot \<times> rng" where
  "move_float dx dy s =
     (let (n1, s1) = rand s;
          cx = fl_add (fl_add (x (fst s1)) dx) (fl_mul (Fin n1) (motion_noise (fst s1)));
          (n2, s2) = rand s1;
          cy = fl_add (fl_add (y (fst s2)) dy) (fl_mul (Fin n2) (motion_noise (fst s2)))
      in if (fl_lt cx (Fin 0) \<or> fl_lt (world_size (fst s2)) cx) \<or>
            (fl_lt cy (Fin 0) \<or> fl_lt (world_size (fst s2)) cy)
         then (False, s2)
         else (True, ((fst s2)\<lparr>x := cx, y := cy\<rparr>, snd s2)))"

section \<open>Basic facts\<close>

lemma rand_eq:
  "rand (r, g) = (draws g (consumed g) * 2 - 1, (r, g\<lparr>consumed := Suc (consumed g)\<rparr>))"
  by (simp add: rand_def random_random_def)

lemma move_eq:
  "move dx dy (r, g) =
     (let cx = x r + dx + (draws g (consumed g) * 2 - 1) * motion_noise r;
          cy = y r + dy + (draws g (Suc (consumed g)) * 2 - 1) * motion_noise r;
          g' = g\<lparr>consumed := consumed g + 2\<rparr>
      in if 0 \<le> cx \<and> cx \<le> world_size r \<and> 0 \<le> cy \<and> cy \<le> world_size r
         then (True, (r\<lparr>x := cx, y := cy\<rparr>, g'))
         else (False, (r, g')))"
  by (simp add: move_def rand_eq Let_def not_less)

subsection \<open>The loop of sense\<close>

lemma upt_0_Suc_shift: "[0..<Suc k] = 0 # map Suc [0..<k]"
  by (simp add: upt_conv_Cons map_Suc_upt del: upt_Suc)

lemma sense_loop_state:
  "snd (sense_loop a idx ls ms (r, g)) = (r, g\<lparr>consumed := consumed g + 2 * length ls\<rparr>)"
proof (induction ls arbitrary: idx ms g)
  case Nil
  show ?case by simp
next
  case (Cons l ls)
  obtain lx ly where l: "l = (lx, ly)" by (cases l)
  show ?case unfolding l by (simp add: rand_eq Let_def Cons.IH)
qed

lemma sense_loop_all:
  "map fst (fst (sense_loop True idx ls ms (r, g))) = map fst ms @ [idx..<idx + length ls]"
proof (induction ls arbitrary: idx ms g)
  case Nil
  show ?case by simp
next
  case (Cons l ls)
  obtain lx ly where l: "l = (lx, ly)" by (cases l)
  have "[idx..<idx + length (l # ls)] = idx # [Suc idx..<Suc idx + length ls]"
    by (subst upt_rec) simp
  then show ?case unfolding l by (simp add: rand_eq Let_def Cons.IH del: upt_Suc)
qed

lemma sense_loop_negative_range:
  "measurement_range r < 0 \<Longrightarrow> fst (sense_loop False idx ls ms (r, g)) = ms"
proof (induction ls arbitrary: idx g)
  case Nil
  show ?case by simp
next
  case (Cons l ls)
  obtain lx ly where l: "l = (lx, ly)" by (cases l)
  have "\<not> \<bar>v\<bar> \<le> measurement_range r" for v
    using Cons.prems by simp
  then show ?case unfolding l using Cons.IH [OF Cons.prems] by (simp add: rand_eq Let_def)
qed

lemma sense_loop_exact:
  assumes "measurement_noise r = 0"
  shows "fst (sense_loop a idx ls ms (r, g)) =
     ms @ filter (\<lambda>(i, dx, dy). a \<or> (\<bar>dx\<bar> \<le> measurement_range r \<and> \<bar>dy\<bar> \<le> measurement_range r))
            (map (\<lambda>(i, (lx, ly)). (i, of_int lx - x r, of_int ly - y r)) (enumerate idx ls))"
proof (induction ls arbitrary: idx ms g)
  case Nil
  show ?case by simp
next
  case (Cons l ls)
  obtain lx ly where l: "l = (lx, ly)" by (cases l)
  show ?case unfolding l by (simp add: rand_eq Let_def Cons.IH assms)
qed

lemma sense_loop_eq:
  "fst (sense_loop a idx ls ms (r, g)) =
     ms @ filter (\<lambda>(i, dx, dy). a \<or> (\<bar>dx\<bar> \<le> measurement_range r \<and> \<bar>dy\<bar> \<le> measurement_range r))
            (map (\<lambda>j. (idx + j,
                       of_int (fst (ls ! j)) - x r +
                         (draws g (consumed g + 2 * j) * 2 - 1) * measurement_noise r,
                       of_int (snd (ls ! j)) - y r +
                         (draws g (consumed g + 2 * j + 1) * 2 - 1) * measurement_noise r))
               [0..<length ls])"
proof (induction ls arbitrary: idx ms g)
  case Nil
  show ?case by simp
next
  case (Cons l ls)
  obtain lx ly where l: "l = (lx, ly)" by (cases l)
  show ?case
    unfolding l
    by (simp add: rand_eq Let_def Cons.IH upt_0_Suc_shift comp_def del: upt_Suc)
qed

lemma sense_eq:
  "fst (sense (r, g)) =
     filter (\<lambda>(i, dx, dy). measurement_range r = - 1 \<or>
               (\<bar>dx\<bar> \<le> measurement_range r \<and> \<bar>dy\<bar> \<le> measurement_range r))
       (map (\<lambda>i. (i,
                  of_int (fst (landmarks r ! i)) - x r +
                    (draws g (consumed g + 2 * i) * 2 - 1) * measurement_noise r,
                  of_int (snd (landmarks r ! i)) - y r +
                    (draws g (consumed g + 2 * i + 1) * 2 - 1) * measurement_noise r))
          [0..<length (landmarks r)])"
  using sense_loop_eq [of "measurement_range r = - 1" 0 "landmarks r" "[]" r g]
  by (simp add: sense_def)

lemma map_fst_filter_indexed:
  "map fst (filter (\<lambda>(i, dx, dy). P dx dy) (map (\<lambda>i. (i, f i, h i)) is)) =
     filter (\<lambda>i. P (f i) (h i)) is"
  by (induction "is") simp_all

subsection \<open>The loop of make_landmarks and rounding\<close>

lemma make_landmarks_loop_eq:
  "make_landmarks_loop k (r, g) =
     (r\<lparr>landmarks := landmarks r @
          map (\<lambda>i. (round_half_even (draws g (consumed g + 2 * i) * world_size r),
                     round_half_even (draws g (consumed g + 2 * i + 1) * world_size r)))
            [0..<k]\<rparr>,
      g\<lparr>consumed := consumed g + 2 * k\<rparr>)"
proof (induction k arbitrary: r g)
  case 0
  show ?case by simp
next
  case (Suc k)
  show ?case
    by (simp add: random_random_def Let_def Suc.IH upt_0_Suc_shift comp_def del: upt_Suc)
qed

lemma make_landmarks_eq:
  "make_landmarks n (r, g) =
     (r\<lparr>landmarks :=
          map (\<lambda>i. (round_half_even (draws g (consumed g + 2 * i) * world_size r),
                     round_half_even (draws g (consumed g + 2 * i + 1) * world_size r)))
            [0..<nat n],
        num_landmarks := n\<rparr>,
      g\<lparr>consumed := consumed g + 2 * nat n\<rparr>)"
  by (simp add: make_landmarks_def make_landmarks_loop_eq Let_def)




subsection \<open>move on floats with special values\<close>


lemma move_float_eq:
  "move_float dx dy (r, g) =
     (let cx = fl_add (fl_add (x r) dx) (fl_mul (Fin (draws g (consumed g) * 2 - 1)) (motion_noise r));
          cy = fl_add (fl_add (y r) dy) (fl_mul (Fin (draws g (Suc (consumed g)) * 2 - 1)) (motion_noise r));
          g' = g\<lparr>consumed := consumed g + 2\<rparr>
      in if (fl_lt cx (Fin 0) \<or> fl_lt (world_size r) cx) \<or> (fl_lt cy (Fin 0) \<or> fl_lt (world_size r) cy)
         then (False, (r, g'))
         else (True, (r\<lparr>x := cx, y := cy\<rparr>, g')))"
  by (simp add: move_float_def rand_eq Let_def)

text \<open>On finite values the two models of \<^verbatim>\<open>move\<close> agree.\<close>

lemma move_float_finite:
  "move_float (Fin dx) (Fin dy) (finite_robot r, g) =
     (fst (move dx dy (r, g)), finite_robot (fst (snd (move dx dy (r, g)))),
      snd (snd (move dx dy (r, g))))"
  by (simp add: move_float_eq move_eq Let_def finite_robot_def not_le not_less)

subsection \<open>An invariant of the reachable states\<close>

lemma reachable_landmark_count:
  "reachable s \<Longrightarrow> length (landmarks (fst s)) = nat (num_landmarks (fst s))"
proof (induction rule: reachable.induct)
  case (constructed ws mr mn msn g)
  show ?case by (simp add: Robot_init_def)
next
  case (moved s dx dy)
  obtain r g where s: "s = (r, g)" by (cases s)
  show ?case using moved.IH unfolding s by (simp add: move_eq Let_def)
next
  case (sensed s)
  obtain r g where s: "s = (r, g)" by (cases s)
  show ?case using sensed.IH unfolding s by (simp add: sense_def sense_loop_state)
next
  case (landmarks_made s n)
  obtain r g where s: "s = (r, g)" by (cases s)
  show ?case unfolding s by (simp add: make_landmarks_eq)
next
  case (generator_used r g g')
  then show ?case by simp
qed

section \<open>The claims\<close>

text \<open>
  C1. With \<open>measurement_range\<close> equal to -1, \<open>sense\<close> returns exactly one observation for
  every landmark, whatever the landmarks and the draws are: the result has as many
  entries as there are landmarks, and their indices are 0, 1, ... in this order. The
  flag stands alone on the left of the \<open>or\<close>, so neither axis test can exclude a
  landmark.
\<close>

theorem sense_unlimited_range_full_coverage:
  assumes "measurement_range r = - 1"
  shows "length (fst (sense (r, g))) = length (landmarks r) \<and>
         map fst (fst (sense (r, g))) = [0..<length (landmarks r)]"
proof -
  have idx: "map fst (fst (sense (r, g))) = [0..<length (landmarks r)]"
    using assms by (simp add: sense_def sense_loop_all)
  have "length (fst (sense (r, g))) = length (map fst (fst (sense (r, g))))"
    by simp
  also have "\<dots> = length (landmarks r)"
    by (simp only: idx length_upt diff_zero)
  finally show ?thesis using idx by simp
qed

theorem sense_unlimited_range_full_coverage_witness:
  "measurement_range (Robot_init 100 (- 1) 1 1\<lparr>landmarks := [(90, 5), (50, 50)]\<rparr>) = - 1 \<and>
   map fst (fst (sense (Robot_init 100 (- 1) 1 1\<lparr>landmarks := [(90, 5), (50, 50)]\<rparr>,
                        \<lparr>draws = (\<lambda>i. 1 / 4), consumed = 0\<rparr>))) = [0, 1]"
proof -
  have h: "measurement_range (Robot_init 100 (- 1) 1 1\<lparr>landmarks := [(90, 5), (50, 50)]\<rparr>) = - 1"
    by (simp add: Robot_init_def)
  show ?thesis
    using h sense_unlimited_range_full_coverage [OF h, of "\<lparr>draws = (\<lambda>i. 1 / 4), consumed = 0\<rparr>"]
    by (simp add: Robot_init_def upt_conv_Cons)
qed




text \<open>
  C3. A rejected \<open>move\<close> leaves the robot as it was, so its position after the call is
  its position before; an accepted \<open>move\<close> sets both coordinates to the candidate pair
  and changes nothing else. No call updates one axis alone.
\<close>

theorem move_updates_both_or_nothing:
  "(\<not> fst (move dx dy (r, g)) \<longrightarrow> fst (snd (move dx dy (r, g))) = r) \<and>
   (fst (move dx dy (r, g)) \<longrightarrow>
      fst (snd (move dx dy (r, g))) =
        r\<lparr>x := x r + dx + (draws g (consumed g) * 2 - 1) * motion_noise r,
          y := y r + dy + (draws g (Suc (consumed g)) * 2 - 1) * motion_noise r\<rparr>)"
  by (simp add: move_eq Let_def)

theorem move_updates_both_or_nothing_witness:
  "\<not> fst (move 60 0 (Robot_default, \<lparr>draws = (\<lambda>i. 3 / 4), consumed = 0\<rparr>)) \<and>
   fst (snd (move 60 0 (Robot_default, \<lparr>draws = (\<lambda>i. 3 / 4), consumed = 0\<rparr>))) = Robot_default \<and>
   fst (move 10 (- 20) (Robot_default, \<lparr>draws = (\<lambda>i. 3 / 4), consumed = 0\<rparr>)) \<and>
   fst (snd (move 10 (- 20) (Robot_default, \<lparr>draws = (\<lambda>i. 3 / 4), consumed = 0\<rparr>))) =
     Robot_default\<lparr>x := 121 / 2, y := 61 / 2\<rparr>"
proof -
  have rej: "\<not> fst (move 60 0 (Robot_default, \<lparr>draws = (\<lambda>i. 3 / 4), consumed = 0\<rparr>))"
    by (simp add: Robot_default_def Robot_init_def move_eq Let_def)
  have acc: "fst (move 10 (- 20) (Robot_default, \<lparr>draws = (\<lambda>i. 3 / 4), consumed = 0\<rparr>))"
    by (simp add: Robot_default_def Robot_init_def move_eq Let_def)
  have mn: "motion_noise Robot_default = 1" "x Robot_default = 50" "y Robot_default = 50"
    by (simp_all add: Robot_default_def Robot_init_def)
  show ?thesis
    using rej acc
      move_updates_both_or_nothing [of 60 0 Robot_default "\<lparr>draws = (\<lambda>i. 3 / 4), consumed = 0\<rparr>"]
      move_updates_both_or_nothing [of 10 "- 20" Robot_default "\<lparr>draws = (\<lambda>i. 3 / 4), consumed = 0\<rparr>"]
    by (simp add: mn)
qed

text \<open>
  C4. With \<open>motion_noise\<close> and \<open>measurement_noise\<close> both zero, \<open>move\<close> is deterministic:
  it accepts exactly when the old position plus the step lies within the bounds and then
  stores exactly that sum, whatever the draws are; and \<open>sense\<close> returns, for each
  observable landmark and in index order, the exact differences between the landmark
  and the position, with no noise term.
\<close>

theorem zero_noise_move_and_sense_exact:
  assumes "motion_noise r = 0" and "measurement_noise r = 0"
  shows "move dx dy (r, g) =
           (if 0 \<le> x r + dx \<and> x r + dx \<le> world_size r \<and>
               0 \<le> y r + dy \<and> y r + dy \<le> world_size r
            then (True, (r\<lparr>x := x r + dx, y := y r + dy\<rparr>, g\<lparr>consumed := consumed g + 2\<rparr>))
            else (False, (r, g\<lparr>consumed := consumed g + 2\<rparr>))) \<and>
         fst (sense (r, g)) =
           filter (\<lambda>(i, dx, dy). measurement_range r = - 1 \<or>
                     (\<bar>dx\<bar> \<le> measurement_range r \<and> \<bar>dy\<bar> \<le> measurement_range r))
             (map (\<lambda>(i, (lx, ly)). (i, of_int lx - x r, of_int ly - y r))
                (enumerate 0 (landmarks r)))"
proof
  show "move dx dy (r, g) =
           (if 0 \<le> x r + dx \<and> x r + dx \<le> world_size r \<and>
               0 \<le> y r + dy \<and> y r + dy \<le> world_size r
            then (True, (r\<lparr>x := x r + dx, y := y r + dy\<rparr>, g\<lparr>consumed := consumed g + 2\<rparr>))
            else (False, (r, g\<lparr>consumed := consumed g + 2\<rparr>)))"
    using assms(1) by (simp add: move_eq Let_def)
next
  show "fst (sense (r, g)) =
           filter (\<lambda>(i, dx, dy). measurement_range r = - 1 \<or>
                     (\<bar>dx\<bar> \<le> measurement_range r \<and> \<bar>dy\<bar> \<le> measurement_range r))
             (map (\<lambda>(i, (lx, ly)). (i, of_int lx - x r, of_int ly - y r))
                (enumerate 0 (landmarks r)))"
    using sense_loop_exact [OF assms(2), of "measurement_range r = - 1" 0 "landmarks r" "[]" g]
    by (simp add: sense_def)
qed

theorem zero_noise_move_and_sense_exact_witness:
  "motion_noise (Robot_init 100 30 0 0\<lparr>landmarks := [(10, 10), (60, 45)]\<rparr>) = 0 \<and>
   measurement_noise (Robot_init 100 30 0 0\<lparr>landmarks := [(10, 10), (60, 45)]\<rparr>) = 0 \<and>
   move 3 (- 4) (Robot_init 100 30 0 0\<lparr>landmarks := [(10, 10), (60, 45)]\<rparr>,
                 \<lparr>draws = (\<lambda>i. 7 / 8), consumed = 0\<rparr>) =
     (True, (Robot_init 100 30 0 0\<lparr>landmarks := [(10, 10), (60, 45)], x := 53, y := 46\<rparr>,
             \<lparr>draws = (\<lambda>i. 7 / 8), consumed = 2\<rparr>)) \<and>
   fst (sense (Robot_init 100 30 0 0\<lparr>landmarks := [(10, 10), (60, 45)]\<rparr>,
               \<lparr>draws = (\<lambda>i. 7 / 8), consumed = 0\<rparr>)) = [(1, 10, - 5)]"
proof -
  have h: "motion_noise (Robot_init 100 30 0 0\<lparr>landmarks := [(10, 10), (60, 45)]\<rparr>) = 0"
    "measurement_noise (Robot_init 100 30 0 0\<lparr>landmarks := [(10, 10), (60, 45)]\<rparr>) = 0"
    by (simp_all add: Robot_init_def)
  show ?thesis
    using h zero_noise_move_and_sense_exact [OF h, of 3 "- 4" "\<lparr>draws = (\<lambda>i. 7 / 8), consumed = 0\<rparr>"]
    by (simp add: Robot_init_def)
qed




theorem draws_consumed_per_call:
  "snd (snd (move dx dy (r, g))) = g\<lparr>consumed := consumed g + 2\<rparr> \<and>
   snd (snd (sense (r, g))) = g\<lparr>consumed := consumed g + 2 * length (landmarks r)\<rparr>"
  by (simp add: move_eq Let_def sense_def sense_loop_state)

theorem draws_consumed_per_call_witness:
  "\<not> fst (move 60 0 (Robot_default, \<lparr>draws = (\<lambda>i. 3 / 4), consumed = 5\<rparr>)) \<and>
   consumed (snd (snd (move 60 0 (Robot_default, \<lparr>draws = (\<lambda>i. 3 / 4), consumed = 5\<rparr>)))) = 7 \<and>
   fst (sense (Robot_default\<lparr>landmarks := [(0, 0), (55, 45), (99, 1)]\<rparr>,
               \<lparr>draws = (\<lambda>i. 3 / 4), consumed = 5\<rparr>)) = [(1, 11 / 2, - 9 / 2)] \<and>
   consumed (snd (snd (sense (Robot_default\<lparr>landmarks := [(0, 0), (55, 45), (99, 1)]\<rparr>,
               \<lparr>draws = (\<lambda>i. 3 / 4), consumed = 5\<rparr>)))) = 11"
proof -
  have rej: "\<not> fst (move 60 0 (Robot_default, \<lparr>draws = (\<lambda>i. 3 / 4), consumed = 5\<rparr>))"
    by (simp add: Robot_default_def Robot_init_def move_eq Let_def)
  have obs: "fst (sense (Robot_default\<lparr>landmarks := [(0, 0), (55, 45), (99, 1)]\<rparr>,
               \<lparr>draws = (\<lambda>i. 3 / 4), consumed = 5\<rparr>)) = [(1, 11 / 2, - 9 / 2)]"
    by (simp add: Robot_default_def Robot_init_def sense_def rand_eq Let_def)
  show ?thesis
    using rej obs
      draws_consumed_per_call [of 60 0 Robot_default "\<lparr>draws = (\<lambda>i. 3 / 4), consumed = 5\<rparr>"]
      draws_consumed_per_call [of 0 0 "Robot_default\<lparr>landmarks := [(0, 0), (55, 45), (99, 1)]\<rparr>"
        "\<lparr>draws = (\<lambda>i. 3 / 4), consumed = 5\<rparr>"]
    by simp
qed

text \<open>
  C7. \<open>sense\<close> changes no field of the robot: the object after the call is the object
  before it. Of the generator only the count of consumed draws moves on.
\<close>

theorem sense_leaves_robot_unchanged:
  "fst (snd (sense (r, g))) = r \<and> draws (snd (snd (sense (r, g)))) = draws g"
  by (simp add: sense_def sense_loop_state)

theorem sense_leaves_robot_unchanged_witness:
  "fst (sense (Robot_default\<lparr>landmarks := [(0, 0), (55, 45)]\<rparr>,
               \<lparr>draws = (\<lambda>i. 3 / 4), consumed = 0\<rparr>)) = [(1, 11 / 2, - 9 / 2)] \<and>
   fst (snd (sense (Robot_default\<lparr>landmarks := [(0, 0), (55, 45)]\<rparr>,
               \<lparr>draws = (\<lambda>i. 3 / 4), consumed = 0\<rparr>))) =
     Robot_default\<lparr>landmarks := [(0, 0), (55, 45)]\<rparr>"
proof -
  have obs: "fst (sense (Robot_default\<lparr>landmarks := [(0, 0), (55, 45)]\<rparr>,
               \<lparr>draws = (\<lambda>i. 3 / 4), consumed = 0\<rparr>)) = [(1, 11 / 2, - 9 / 2)]"
    by (simp add: Robot_default_def Robot_init_def sense_def rand_eq Let_def)
  show ?thesis
    using obs sense_leaves_robot_unchanged
      [of "Robot_default\<lparr>landmarks := [(0, 0), (55, 45)]\<rparr>" "\<lparr>draws = (\<lambda>i. 3 / 4), consumed = 0\<rparr>"]
    by simp
qed

text \<open>
  C8. The indices in a result of \<open>sense\<close> are exactly the indices of the observable
  landmarks, in ascending order: landmark \<open>i\<close> is reported when the range is unlimited
  or both its noisy differences, made with the draws number \<open>2 * i\<close> and \<open>2 * i + 1\<close> of
  the call, are within \<open>measurement_range\<close>. So the indices are strictly ascending,
  without duplicates, and each is the position of a landmark in the list. In every
  state a program can reach through the constructor and the methods, each index also
  lies from 0 up to, and not including, \<open>num_landmarks\<close>.
\<close>

theorem sense_indices_ascending_in_range_distinct:
  "map fst (fst (sense (r, g))) =
     filter (\<lambda>i. measurement_range r = - 1 \<or>
               (\<bar>of_int (fst (landmarks r ! i)) - x r +
                   (draws g (consumed g + 2 * i) * 2 - 1) * measurement_noise r\<bar>
                  \<le> measurement_range r \<and>
                \<bar>of_int (snd (landmarks r ! i)) - y r +
                   (draws g (consumed g + 2 * i + 1) * 2 - 1) * measurement_noise r\<bar>
                  \<le> measurement_range r))
       [0..<length (landmarks r)] \<and>
   sorted_wrt (<) (map fst (fst (sense (r, g)))) \<and>
   distinct (map fst (fst (sense (r, g)))) \<and>
   (\<forall>i \<in> set (map fst (fst (sense (r, g)))). i < length (landmarks r)) \<and>
   (reachable (r, g) \<longrightarrow>
      (\<forall>i \<in> set (map fst (fst (sense (r, g)))). 0 \<le> int i \<and> int i < num_landmarks r))"
proof -
  let ?obs = "\<lambda>i. measurement_range r = - 1 \<or>
               (\<bar>of_int (fst (landmarks r ! i)) - x r +
                   (draws g (consumed g + 2 * i) * 2 - 1) * measurement_noise r\<bar>
                  \<le> measurement_range r \<and>
                \<bar>of_int (snd (landmarks r ! i)) - y r +
                   (draws g (consumed g + 2 * i + 1) * 2 - 1) * measurement_noise r\<bar>
                  \<le> measurement_range r)"
  let ?ks = "map fst (fst (sense (r, g)))"
  have eq: "?ks = filter ?obs [0..<length (landmarks r)]"
    unfolding sense_eq
    by (rule map_fst_filter_indexed
        [of "\<lambda>dx dy. measurement_range r = - 1 \<or>
               (\<bar>dx\<bar> \<le> measurement_range r \<and> \<bar>dy\<bar> \<le> measurement_range r)"])
  have sorted: "sorted_wrt (<) ?ks"
    unfolding eq by (rule sorted_wrt_filter) (simp add: strict_sorted_iff)
  have dist: "distinct ?ks"
    unfolding eq by simp
  have below: "\<forall>i \<in> set ?ks. i < length (landmarks r)"
    unfolding eq by simp
  have "\<forall>i \<in> set ?ks. 0 \<le> int i \<and> int i < num_landmarks r" if "reachable (r, g)"
    using reachable_landmark_count [OF that] below by auto
  then show ?thesis using eq sorted dist below by blast
qed

theorem sense_indices_ascending_in_range_distinct_witness:
  "reachable (make_landmarks 3 (Robot_default, \<lparr>draws = (\<lambda>i. if i < 2 then 0 else 1 / 2), consumed = 0\<rparr>)) \<and>
   landmarks (fst (make_landmarks 3
      (Robot_default, \<lparr>draws = (\<lambda>i. if i < 2 then 0 else 1 / 2), consumed = 0\<rparr>))) =
     [(0, 0), (50, 50), (50, 50)] \<and>
   num_landmarks (fst (make_landmarks 3
      (Robot_default, \<lparr>draws = (\<lambda>i. if i < 2 then 0 else 1 / 2), consumed = 0\<rparr>))) = 3 \<and>
   map fst (fst (sense (make_landmarks 3
      (Robot_default, \<lparr>draws = (\<lambda>i. if i < 2 then 0 else 1 / 2), consumed = 0\<rparr>)))) = [1, 2] \<and>
   sorted_wrt (<) (map fst (fst (sense (make_landmarks 3
      (Robot_default, \<lparr>draws = (\<lambda>i. if i < 2 then 0 else 1 / 2), consumed = 0\<rparr>))))) \<and>
   distinct (map fst (fst (sense (make_landmarks 3
      (Robot_default, \<lparr>draws = (\<lambda>i. if i < 2 then 0 else 1 / 2), consumed = 0\<rparr>)))))"
proof -
  let ?g = "\<lparr>draws = (\<lambda>i. if i < 2 then 0 else 1 / 2), consumed = 0\<rparr>"
  let ?r3 = "Robot_default\<lparr>landmarks := [(0, 0), (50, 50), (50, 50)], num_landmarks := 3\<rparr>"
  let ?g6 = "\<lparr>draws = (\<lambda>i. if i < 2 then 0 else 1 / 2), consumed = 6\<rparr>"
  have reach: "reachable (make_landmarks 3 (Robot_default, ?g))"
    unfolding Robot_default_def by (intro reachable.landmarks_made reachable.constructed)
  have eq: "make_landmarks 3 (Robot_default, ?g) = (?r3, ?g6)"
    by (simp add: make_landmarks_eq Robot_default_def Robot_init_def round_half_even_def
        upt_conv_Cons eval_nat_numeral)
  have idx: "map fst (fst (sense (?r3, ?g6))) = [1, 2]"
    by (simp add: Robot_default_def Robot_init_def sense_def rand_eq Let_def)
  show ?thesis
    using reach idx sense_indices_ascending_in_range_distinct [of ?r3 ?g6]
    by (simp add: eq)
qed

theorem move_200_large_noise_counterexample:
  "0 \<le> motion_noise (Robot_init 100 30 160 1) \<and>
   valid_rng \<lparr>draws = (\<lambda>i. if i = 0 then 0 else 1 / 2), consumed = 0\<rparr> \<and>
   x (Robot_init 100 30 160 1) = 50 \<and> y (Robot_init 100 30 160 1) = 50 \<and>
   move 200 0 (Robot_init 100 30 160 1, \<lparr>draws = (\<lambda>i. if i = 0 then 0 else 1 / 2), consumed = 0\<rparr>) =
     (True, (Robot_init 100 30 160 1\<lparr>x := 90, y := 50\<rparr>,
             \<lparr>draws = (\<lambda>i. if i = 0 then 0 else 1 / 2), consumed = 2\<rparr>))"
  by (simp add: move_eq Let_def Robot_init_def valid_rng_def)

text \<open>
  C9, amended. From the centre of a world of size 100, \<open>move(200, 0)\<close> is rejected and
  leaves the robot unchanged for every \<open>motion_noise\<close> from 0 up to, and not including,
  150, whatever the draws in [0, 1) are.
\<close>

theorem move_200_rejected_below_150:
  assumes "world_size r = 100" and "x r = 50" and "y r = 50"
    and "0 \<le> motion_noise r" and "motion_noise r < 150" and "valid_rng g"
  shows "\<not> fst (move 200 0 (r, g)) \<and> fst (snd (move 200 0 (r, g))) = r"
proof -
  have "0 \<le> draws g (consumed g)" using assms(6) by (simp add: valid_rng_def)
  then have "0 \<le> draws g (consumed g) * 2 * motion_noise r"
    using assms(4) by simp
  then have "- motion_noise r \<le> (draws g (consumed g) * 2 - 1) * motion_noise r"
    by (simp add: algebra_simps)
  then have "world_size r < x r + 200 + (draws g (consumed g) * 2 - 1) * motion_noise r"
    using assms(1,2,5) by simp
  then show ?thesis by (simp add: move_eq Let_def)
qed

theorem move_200_rejected_below_150_witness:
  "world_size Robot_default = 100 \<and> x Robot_default = 50 \<and> y Robot_default = 50 \<and>
   0 \<le> motion_noise Robot_default \<and> motion_noise Robot_default < 150 \<and>
   valid_rng \<lparr>draws = (\<lambda>i. if i = 0 then 0 else 1 / 2), consumed = 0\<rparr> \<and>
   \<not> fst (move 200 0 (Robot_default, \<lparr>draws = (\<lambda>i. if i = 0 then 0 else 1 / 2), consumed = 0\<rparr>)) \<and>
   fst (snd (move 200 0 (Robot_default, \<lparr>draws = (\<lambda>i. if i = 0 then 0 else 1 / 2), consumed = 0\<rparr>)))
     = Robot_default"
proof -
  have h: "world_size Robot_default = 100" "x Robot_default = 50" "y Robot_default = 50"
    "0 \<le> motion_noise Robot_default" "motion_noise Robot_default < 150"
    "valid_rng \<lparr>draws = (\<lambda>i. if i = 0 then 0 else 1 / 2), consumed = 0\<rparr>"
    by (simp_all add: Robot_default_def Robot_init_def valid_rng_def)
  show ?thesis
    using h move_200_rejected_below_150 [OF h] by simp
qed

text \<open>
  C10. When \<open>measurement_range\<close> is negative and not -1, \<open>sense\<close> returns the empty
  list for every landmark list and all draws: no absolute value is at most a negative
  bound, and only the value -1 itself switches the range test off.
\<close>

theorem sense_negative_range_sees_nothing:
  assumes "measurement_range r < 0" and "measurement_range r \<noteq> - 1"
  shows "fst (sense (r, g)) = []"
  using assms by (simp add: sense_def sense_loop_negative_range)

theorem sense_negative_range_sees_nothing_witness:
  "measurement_range (Robot_init 100 (- 2) 1 1\<lparr>landmarks := [(50, 50), (51, 49)]\<rparr>) < 0 \<and>
   measurement_range (Robot_init 100 (- 2) 1 1\<lparr>landmarks := [(50, 50), (51, 49)]\<rparr>) \<noteq> - 1 \<and>
   fst (sense (Robot_init 100 (- 2) 1 1\<lparr>landmarks := [(50, 50), (51, 49)]\<rparr>,
               \<lparr>draws = (\<lambda>i. 1 / 2), consumed = 0\<rparr>)) = []"
proof -
  have h: "measurement_range (Robot_init 100 (- 2) 1 1\<lparr>landmarks := [(50, 50), (51, 49)]\<rparr>) < 0"
    "measurement_range (Robot_init 100 (- 2) 1 1\<lparr>landmarks := [(50, 50), (51, 49)]\<rparr>) \<noteq> - 1"
    by (simp_all add: Robot_init_def)
  show ?thesis
    using h sense_negative_range_sees_nothing [OF h, of "\<lparr>draws = (\<lambda>i. 1 / 2), consumed = 0\<rparr>"]
    by simp
qed

end
